theory Spec2Isabelle
  imports Main "HOL-Library.FSet"
begin

section \<open>Python values shared by the three classes of peer_graph.py\<close>

text \<open>
  Every exception the module can raise is a value. The three \<open>Exception(...)\<close> sites of
  class \<open>Peer\<close> are told apart by their message, so each gets a constructor of its
  own; \<open>Exception_too_many n\<close> stands for the f-string
  \<open>'Too many connections n > {self.N}'\<close> and carries the number it formats.
  The built-in exceptions carry the key or name Python reports.
\<close>

datatype error =
    Exception_connect_self
  | Exception_too_many int
  | Exception_send_self
  | AttributeError string
  | KeyError string
  | TypeError string
  | NameError string
  | IndexError

section \<open>class Peer: the registry of online peers\<close>

text \<open>
  \<open>self._peers\<close> is a dict from a peer id to the one-key dict
  \<open>{'connected': {*()}}\<close>. The display \<open>{*()}\<close> is the empty Python \<open>set\<close>, and no
  other statement of the class ever binds \<open>'connected'\<close>, so the value is a finite set
  of ids. A Python dict keeps its keys in insertion order and \<open>set_offline\<close> iterates
  over it, so the dict is an association list with one entry per key, oldest first.
\<close>

record peer_node =
  connected :: "string fset"

type_synonym peers_dict = "(string \<times> peer_node) list"

record peer_state =
  N :: int
  peers :: peers_dict

text \<open>The dict operations the class uses: \<open>k in d\<close>, \<open>d[k]\<close>, \<open>d[k] = v\<close> and
  \<open>d.pop(k, None)\<close>.\<close>

definition dict_contains :: "('k \<times> 'v) list \<Rightarrow> 'k \<Rightarrow> bool" where
  "dict_contains d k = (map_of d k \<noteq> None)"

fun dict_setitem :: "('k \<times> 'v) list \<Rightarrow> 'k \<Rightarrow> 'v \<Rightarrow> ('k \<times> 'v) list" where
  "dict_setitem [] k v = [(k, v)]"
| "dict_setitem ((k', v') # d) k v =
     (if k' = k then (k, v) # d else (k', v') # dict_setitem d k v)"

definition dict_pop :: "('k \<times> 'v) list \<Rightarrow> 'k \<Rightarrow> ('k \<times> 'v) list" where
  "dict_pop d k = filter (\<lambda>kv. fst kv \<noteq> k) d"

definition dict_keys :: "('k \<times> 'v) list \<Rightarrow> 'k list" where
  "dict_keys d = map fst d"

text \<open>\<open>Peer.__init__\<close>: \<open>self.N = N\<close> with the default 1024, \<open>self._peers = {}\<close>.\<close>

definition Peer_init :: "int option \<Rightarrow> peer_state" where
  "Peer_init arg = \<lparr>N = (case arg of None \<Rightarrow> 1024 | Some n \<Rightarrow> n), peers = []\<rparr>"

definition isonline :: "peer_state \<Rightarrow> string \<Rightarrow> bool" where
  "isonline st ident = (if dict_contains (peers st) ident then True else False)"

definition all_online :: "peer_state \<Rightarrow> string list" where
  "all_online st = dict_keys (peers st)"

text \<open>\<open>num_connected\<close> subscripts the dict, which raises \<open>KeyError\<close> on an unknown id.\<close>

definition num_connected :: "peer_state \<Rightarrow> string \<Rightarrow> error + int" where
  "num_connected st ident =
     (case map_of (peers st) ident of
        None \<Rightarrow> Inl (KeyError ident)
      | Some node \<Rightarrow> Inr (int (fcard (connected node))))"

definition set_online :: "string \<Rightarrow> peer_state \<Rightarrow> peer_state" where
  "set_online ident st =
     (if \<not> dict_contains (peers st) ident
      then st\<lparr>peers := dict_setitem (peers st) ident \<lparr>connected = {||}\<rparr>\<rparr>
      else st)"

text \<open>
  The loop of \<open>set_offline\<close>, over the keys left after the pop. \<open>set.remove(x)\<close>
  raises \<open>KeyError\<close> when \<open>x\<close> is not a member. The handler of the source catches
  \<open>ValueError\<close> only (what \<open>list.remove\<close> raises), so the \<open>KeyError\<close> leaves the loop
  and the method; the removals already made stay.
\<close>

fun set_offline_loop ::
  "string \<Rightarrow> string list \<Rightarrow> peers_dict \<Rightarrow> (error + unit) \<times> peers_dict" where
  "set_offline_loop ident [] d = (Inr (), d)"
| "set_offline_loop ident (k # ks) d =
     (case map_of d k of
        None \<Rightarrow> (Inl (KeyError k), d)
      | Some node \<Rightarrow>
          if ident |\<in>| connected node
          then set_offline_loop ident ks
                 (dict_setitem d k (node\<lparr>connected := connected node |-| {|ident|}\<rparr>))
          else (Inl (KeyError ident), d))"

definition set_offline :: "string \<Rightarrow> peer_state \<Rightarrow> (error + unit) \<times> peer_state" where
  "set_offline ident st =
     (if dict_contains (peers st) ident
      then (let d = dict_pop (peers st) ident;
                (r, d') = set_offline_loop ident (dict_keys d) d
            in (r, st\<lparr>peers := d'\<rparr>))
      else (Inr (), st))"

text \<open>
  \<open>connect\<close>. The two \<open>.append\<close> calls are on a \<open>set\<close>, which has no such attribute:
  looking the attribute up raises \<open>AttributeError\<close> before anything is inserted, so
  the first of the two statements ends the method and the state is as it was.
  The method returns \<open>True\<close>, returns \<open>False\<close>, or raises.
\<close>

definition connect :: "string \<Rightarrow> string \<Rightarrow> peer_state \<Rightarrow> (error + bool) \<times> peer_state" where
  "connect id_from id_to st =
     (if id_from = id_to then (Inl Exception_connect_self, st)
      else (case (map_of (peers st) id_from, map_of (peers st) id_to) of
        (Some node_from, Some node_to) \<Rightarrow>
          (if id_to |\<in>| connected node_from then (Inr True, st)
           else if int (fcard (connected node_from)) < N st - 1
                 \<and> int (fcard (connected node_to)) < N st - 1
           then (Inl (AttributeError ''append''), st)
           else (Inl (Exception_too_many (N st)), st))
      | _ \<Rightarrow> (Inr False, st)))"

text \<open>
  A method call binds \<open>self\<close> and the positional arguments to the parameters;
  \<open>connect(self, id_from, id_to)\<close> takes exactly two, and any other number raises
  \<open>TypeError\<close> before the body runs.
\<close>

definition call_connect :: "string list \<Rightarrow> peer_state \<Rightarrow> (error + bool) \<times> peer_state" where
  "call_connect args st =
     (case args of
        [id_from, id_to] \<Rightarrow> connect id_from id_to st
      | _ \<Rightarrow> (Inl (TypeError ''connect''), st))"

text \<open>
  \<open>send_msg\<close> calls \<open>self.connect(id_from, id_to, msg)\<close> and prints when the result is
  truthy. The printed lines are the second component of the state it threads: the
  \<open>print\<close> is the only place where the message leaves the object.
\<close>

definition send_msg ::
  "string \<Rightarrow> string \<Rightarrow> string \<Rightarrow> peer_state \<times> string list
     \<Rightarrow> (error + unit) \<times> peer_state \<times> string list" where
  "send_msg id_from id_to msg s =
     (case s of (st, out) \<Rightarrow>
        if id_from = id_to then (Inl Exception_send_self, st, out)
        else (case call_connect [id_from, id_to, msg] st of
          (Inl e, st') \<Rightarrow> (Inl e, st', out)
        | (Inr ok, st') \<Rightarrow>
            (if ok
             then (Inr (), st',
                   out @ [''Sent from '' @ (id_from @ ('' to '' @ (id_to @ ('': '' @ msg))))])
             else (Inr (), st', out))))"


section \<open>class Cache_Singleton: constructing the registry\<close>

text \<open>
  \<open>Peer(...)\<close> runs \<open>Cache_Singleton.__new__(Peer, ...)\<close> and, the result being an
  instance of \<open>Peer\<close>, then \<open>Peer.__init__\<close> on it with the same arguments. The class
  attribute \<open>_instance\<close> starts as \<open>None\<close> and is the only state of \<open>__new__\<close>; objects
  live in a store from addresses to attribute values, so that "the same instance" is
  the same address. \<open>Cache_Singleton\<close> itself is never instantiated in the module;
  the attribute below is the one \<open>Peer\<close> sees.

  While \<open>_instance\<close> is \<open>None\<close>, \<open>__new__\<close> passes its arguments on to
  \<open>object.__new__\<close>, which raises \<open>TypeError\<close> for any argument beyond the class when
  \<open>__new__\<close> is overridden: the first construction succeeds only without an
  argument. A later one never reaches \<open>object.__new__\<close>.
\<close>

type_synonym addr = nat

record world =
  Peer_instance :: "addr option"
  heap :: "addr \<Rightarrow> peer_state option"
  next_addr :: addr

definition Cache_Singleton_new :: "int option \<Rightarrow> world \<Rightarrow> (error + addr) \<times> world" where
  "Cache_Singleton_new arg w =
     (case Peer_instance w of
        None \<Rightarrow>
          (case arg of
             Some n \<Rightarrow> (Inl (TypeError ''object.__new__''), w)
           | None \<Rightarrow>
               (Inr (next_addr w),
                w\<lparr>Peer_instance := Some (next_addr w), next_addr := Suc (next_addr w)\<rparr>))
      | Some a \<Rightarrow> (Inr a, w))"

definition Peer_call :: "int option \<Rightarrow> world \<Rightarrow> (error + addr) \<times> world" where
  "Peer_call arg w =
     (case Cache_Singleton_new arg w of
        (Inl e, w') \<Rightarrow> (Inl e, w')
      | (Inr a, w') \<Rightarrow> (Inr a, w'\<lparr>heap := (heap w')(a \<mapsto> Peer_init arg)\<rparr>))"

section \<open>Sequences of registry operations\<close>

text \<open>
  A caller issues \<open>set_online\<close>, \<open>set_offline\<close> and \<open>connect\<close> one after the other on
  the same object. An operation that raises leaves the object as it was at the
  \<open>raise\<close>, and the next operation starts from there; \<open>exec_op\<close> is that state.
\<close>

datatype registry_op = SetOnline string | SetOffline string | Connect string string

fun exec_op :: "registry_op \<Rightarrow> peer_state \<Rightarrow> peer_state" where
  "exec_op (SetOnline i) st = set_online i st"
| "exec_op (SetOffline i) st = snd (set_offline i st)"
| "exec_op (Connect a b) st = snd (connect a b st)"

definition run :: "registry_op list \<Rightarrow> peer_state \<Rightarrow> peer_state" where
  "run ops st = fold exec_op ops st"

text \<open>The connected set of an id; an id that is not online has none.\<close>

definition connected_of :: "peer_state \<Rightarrow> string \<Rightarrow> string fset" where
  "connected_of st ident =
     (case map_of (peers st) ident of None \<Rightarrow> {||} | Some node \<Rightarrow> connected node)"

definition no_edges :: "peers_dict \<Rightarrow> bool" where
  "no_edges d = list_all (\<lambda>kv. connected (snd kv) = {||}) d"

text \<open>Symmetry of a registry state, as the specification words it.\<close>

definition symmetric :: "peer_state \<Rightarrow> bool" where
  "symmetric st = (\<forall>a b. b |\<in>| connected_of st a \<longleftrightarrow> a |\<in>| connected_of st b)"

text \<open>Two registry states used as concrete inputs: two peers with the edge between
  them, and scenario 1 of the specification after its first \<open>connect\<close>.\<close>

definition linked :: peer_state where
  "linked = \<lparr>N = 1024,
             peers = [(''a'', \<lparr>connected = {|''b''|}\<rparr>), (''b'', \<lparr>connected = {|''a''|}\<rparr>)]\<rparr>"

definition scenario1 :: peer_state where
  "scenario1 = \<lparr>N = 2,
                peers = [(''A'', \<lparr>connected = {|''B''|}\<rparr>), (''B'', \<lparr>connected = {|''A''|}\<rparr>),
                         (''C'', \<lparr>connected = {||}\<rparr>)]\<rparr>"

section \<open>class Graph_BFS\<close>

text \<open>
  \<open>self.graph\<close> is a \<open>defaultdict(list)\<close> from a node to the list of its successors.
  Subscripting it with a missing key stores the empty list under that key and returns
  it, so a read can grow the dict. Nodes are Python ints: \<open>BFS\<close> uses them as indices
  of the list \<open>visited\<close>.
\<close>

type_synonym graph = "(int \<times> int list) list"

definition defaultdict_getitem :: "graph \<Rightarrow> int \<Rightarrow> int list \<times> graph" where
  "defaultdict_getitem g k =
     (case map_of g k of Some vs \<Rightarrow> (vs, g) | None \<Rightarrow> ([], dict_setitem g k []))"

text \<open>\<open>addEdge(u, v)\<close> is \<open>self.graph[u].append(v)\<close>.\<close>

definition addEdge :: "int \<Rightarrow> int \<Rightarrow> graph \<Rightarrow> graph" where
  "addEdge u v g = (case defaultdict_getitem g u of (vs, g') \<Rightarrow> dict_setitem g' u (vs @ [v]))"

text \<open>
  Subscripting a list of length \<open>n\<close> with the int \<open>i\<close>: the positions \<open>0 .. n - 1\<close>
  are themselves, \<open>-n .. -1\<close> count from the end, and anything else raises
  \<open>IndexError\<close> (\<open>None\<close> here).
\<close>

definition list_index :: "nat \<Rightarrow> int \<Rightarrow> nat option" where
  "list_index n i =
     (if 0 \<le> i \<and> i < int n then Some (nat i)
      else if - int n \<le> i \<and> i < 0 then Some (nat (int n + i))
      else None)"

text \<open>
  The \<open>for i in self.graph[s]\<close> loop, over the successors still to look at, on the
  queue and the table \<open>visited\<close>; the read \<open>visited[i]\<close> can raise.
\<close>

fun BFS_for :: "int list \<Rightarrow> int list \<times> bool list \<Rightarrow> error + int list \<times> bool list" where
  "BFS_for [] (queue, visited) = Inr (queue, visited)"
| "BFS_for (i # is) (queue, visited) =
     (case list_index (length visited) i of
        None \<Rightarrow> Inl IndexError
      | Some j \<Rightarrow>
          if visited ! j = False
          then BFS_for is (queue @ [i], visited[j := True])
          else BFS_for is (queue, visited))"

text \<open>
  The \<open>while queue\<close> loop: \<open>queue.pop(0)\<close>, the \<open>print\<close> (the printed nodes are the
  list \<open>out\<close>), then the inner loop. The result is how the loop ended, what was printed
  up to then, and the graph, which the subscript \<open>self.graph[s]\<close> may have grown.
  It terminates because every pass either marks a node or shortens the queue.
\<close>

function BFS_while ::
  "graph \<Rightarrow> int list \<Rightarrow> bool list \<Rightarrow> int list \<Rightarrow> (error + unit) \<times> int list \<times> graph" where
  "BFS_while g queue visited out =
     (case queue of
        [] \<Rightarrow> (Inr (), out, g)
      | s # queue' \<Rightarrow>
          (case defaultdict_getitem g s of (adj, g') \<Rightarrow>
             (case BFS_for adj (queue', visited) of
                Inl e \<Rightarrow> (Inl e, out @ [s], g')
              | Inr (queue'', visited') \<Rightarrow> BFS_while g' queue'' visited' (out @ [s]))))"
  by pat_completeness auto
termination
proof (relation "measure (\<lambda>(g, queue, visited, out).
                    2 * length (filter (\<lambda>b. \<not> b) visited) + length queue)")
  show "wf (measure (\<lambda>(g, queue, visited, out).
                    2 * length (filter (\<lambda>b. \<not> b) visited) + length queue))"
    by simp
next
  fix g :: graph and queue visited out :: "int list" and s queue' x adj g' q2 x2 queue'' visited'
  fix visited :: "bool list"
  have upd: "\<And>j. j < length vs \<Longrightarrow> \<not> vs ! j \<Longrightarrow>
      Suc (length (filter (\<lambda>b. \<not> b) (vs[j := True]))) = length (filter (\<lambda>b. \<not> b) vs)"
    for vs :: "bool list"
  proof (induction vs)
    case Nil
    then show ?case by simp
  next
    case (Cons v vs)
    then show ?case by (cases j) auto
  qed
  have idx: "list_index n i = Some j \<Longrightarrow> j < n" for n i j
    by (auto simp: list_index_def split: if_splits)
  have for_measure: "BFS_for is (q, vs) = Inr (q', vs') \<Longrightarrow>
      2 * length (filter (\<lambda>b. \<not> b) vs') + length q'
        \<le> 2 * length (filter (\<lambda>b. \<not> b) vs) + length q"
    for "is" q vs q' vs'
  proof (induction "is" arbitrary: q vs)
    case Nil
    then show ?case by simp
  next
    case (Cons i "is")
    from Cons.prems obtain j where j: "list_index (length vs) i = Some j"
      by (auto split: option.splits)
    show ?case
    proof (cases "vs ! j")
      case True
      with Cons j show ?thesis by simp
    next
      case False
      with Cons.prems j have "BFS_for is (q @ [i], vs[j := True]) = Inr (q', vs')" by simp
      from Cons.IH [OF this] upd [OF idx [OF j] False] show ?thesis by simp
    qed
  qed
  assume "queue = s # queue'" "BFS_for adj (queue', visited) = Inr x2" "(queue'', visited') = x2"
  then show "((g', queue'', visited', out @ [s]), g, queue, visited, out)
       \<in> measure (\<lambda>(g, queue, visited, out).
                    2 * length (filter (\<lambda>b. \<not> b) visited) + length queue)"
    using for_measure [of adj queue' visited queue'' visited'] by simp
qed

text \<open>
  \<open>BFS(s)\<close>: the table has one entry per key of the dict, \<open>[False] * len(self.graph)\<close>,
  and \<open>visited[s] = True\<close> is the first statement that can raise.
\<close>

definition BFS :: "int \<Rightarrow> graph \<Rightarrow> (error + unit) \<times> int list \<times> graph" where
  "BFS s g =
     (let visited = replicate (length g) False;
          queue = [];
          queue = queue @ [s]
      in case list_index (length visited) s of
           None \<Rightarrow> (Inl IndexError, [], g)
         | Some j \<Rightarrow> BFS_while g queue (visited[j := True]) [])"






definition in_range :: "graph \<Rightarrow> int \<Rightarrow> bool" where
  "in_range g i = (0 \<le> i \<and> i < int (length g))"


text \<open>
  The graphs the index table is designed for. \<open>dense_ids\<close>: the \<open>n\<close> keys of the dict
  are distinct integers among \<open>0 .. n - 1\<close>, hence exactly those. \<open>all_keyed\<close>: the
  source and every successor is a key, that is, every node of the graph has an
  adjacency entry. Together: the nodes are the integers \<open>0 .. n - 1\<close>, \<open>n\<close> the number of
  nodes.
\<close>

definition dense_ids :: "graph \<Rightarrow> bool" where
  "dense_ids g = (distinct (dict_keys g) \<and> list_all (in_range g) (dict_keys g))"



section \<open>class Graph_Shortest_Path\<close>

text \<open>
  \<open>__init__(d)\<close> binds \<open>self.graph\<close> to an empty \<open>defaultdict(list)\<close> when \<open>d\<close> is truthy
  and to a fixed plain dict of six nodes otherwise; a plain dict raises \<open>KeyError\<close> on
  a missing key. The values \<open>find_shortest_path\<close> stores in \<open>dist\<close> are lists built as
  \<open>[dist[at], next]\<close>, a list whose first element is a list again.
\<close>

datatype pyval = PStr string | PList "pyval list"

record sp_graph =
  default_factory :: bool
  items :: "(string \<times> string list) list"

definition Graph_Shortest_Path_init :: "bool \<Rightarrow> sp_graph" where
  "Graph_Shortest_Path_init d =
     (if d then \<lparr>default_factory = True, items = []\<rparr>
      else \<lparr>default_factory = False,
            items = [(''A'', [''B'', ''C'']),
                     (''B'', [''C'', ''D'']),
                     (''C'', [''D'']),
                     (''D'', [''C'']),
                     (''E'', [''F'']),
                     (''F'', [''C''])]\<rparr>)"

text \<open>\<open>self.graph[k]\<close> for either kind of dict.\<close>

definition sp_getitem :: "sp_graph \<Rightarrow> string \<Rightarrow> error + string list \<times> sp_graph" where
  "sp_getitem g k =
     (case map_of (items g) k of
        Some vs \<Rightarrow> Inr (vs, g)
      | None \<Rightarrow>
          if default_factory g then Inr ([], g\<lparr>items := dict_setitem (items g) k []\<rparr>)
          else Inl (KeyError k))"

type_synonym dist_dict = "(string \<times> pyval) list"

text \<open>
  The loop \<open>for next in self.graph[at]\<close> on \<open>dist\<close> and the queue; \<open>dist[at]\<close> raises
  \<open>KeyError\<close> when \<open>at\<close> is not a key of \<open>dist\<close>.
\<close>

fun find_shortest_path_for ::
  "string list \<Rightarrow> string \<Rightarrow> dist_dict \<times> string list \<Rightarrow> error + dist_dict \<times> string list" where
  "find_shortest_path_for [] at (dist, q) = Inr (dist, q)"
| "find_shortest_path_for (next # ns) at (dist, q) =
     (if \<not> dict_contains dist next
      then (case map_of dist at of
              None \<Rightarrow> Inl (KeyError at)
            | Some p \<Rightarrow>
                find_shortest_path_for ns at
                  (dict_setitem dist next (PList [p, PStr next]), q @ [next]))
      else find_shortest_path_for ns at (dist, q))"

text \<open>The nodes that occur as a successor; the measure of the loop below counts those
  not yet in \<open>dist\<close>.\<close>

definition graph_nodes :: "sp_graph \<Rightarrow> string set" where
  "graph_nodes g = (\<Union>kv \<in> set (items g). set (snd kv))"

text \<open>The loop \<open>while len(q)\<close> with \<open>q.popleft()\<close>.\<close>

function find_shortest_path_while ::
  "sp_graph \<Rightarrow> string list \<Rightarrow> dist_dict \<Rightarrow> error + dist_dict \<times> sp_graph" where
  "find_shortest_path_while g q dist =
     (case q of
        [] \<Rightarrow> Inr (dist, g)
      | at # q' \<Rightarrow>
          (case sp_getitem g at of
             Inl e \<Rightarrow> Inl e
           | Inr (adj, g') \<Rightarrow>
               (case find_shortest_path_for adj at (dist, q') of
                  Inl e \<Rightarrow> Inl e
                | Inr (dist', q'') \<Rightarrow> find_shortest_path_while g' q'' dist')))"
  by pat_completeness auto
termination
proof (relation "measure (\<lambda>(g, q, dist).
                    2 * card (graph_nodes g - fst ` set dist) + length q)")
  show "wf (measure (\<lambda>(g, q, dist). 2 * card (graph_nodes g - fst ` set dist) + length q))"
    by simp
next
  fix g q dist at q' x2 adj g' x2a dist' q''
  have keys: "fst ` set (dict_setitem d k v) = insert k (fst ` set d)"
    for d :: dist_dict and k v
  proof (induction d)
    case Nil
    then show ?case by simp
  next
    case (Cons kv d)
    then show ?case by (cases kv) (simp add: insert_commute)
  qed
  have nokey: "\<not> dict_contains d k \<Longrightarrow> k \<notin> fst ` set d" for d :: dist_dict and k
    by (simp add: dict_contains_def map_of_eq_None_iff)
  have for_measure: "find_shortest_path_for ns a (d, qq) = Inr (d', qq') \<Longrightarrow>
      finite U \<Longrightarrow> set ns \<subseteq> U \<Longrightarrow>
      2 * card (U - fst ` set d') + length qq' \<le> 2 * card (U - fst ` set d) + length qq"
    for ns a d qq d' qq' and U :: "string set"
  proof (induction ns arbitrary: d qq)
    case Nil
    then show ?case by simp
  next
    case (Cons n ns)
    show ?case
    proof (cases "dict_contains d n")
      case True
      with Cons show ?thesis by simp
    next
      case False
      with Cons.prems obtain p where p: "map_of d a = Some p"
        by (auto split: option.splits)
      let ?d = "dict_setitem d n (PList [p, PStr n])"
      from False p Cons.prems have "find_shortest_path_for ns a (?d, qq @ [n]) = Inr (d', qq')"
        by simp
      from Cons.IH [OF this] Cons.prems
      have 1: "2 * card (U - fst ` set d') + length qq'
                 \<le> 2 * card (U - fst ` set ?d) + length (qq @ [n])" by simp
      have mem: "n \<in> U - fst ` set d" using Cons.prems nokey [OF False] by simp
      have eq: "U - fst ` set ?d = (U - fst ` set d) - {n}" by (auto simp: keys)
      have fin: "finite (U - fst ` set d)" using Cons.prems by simp
      have "Suc (card (U - fst ` set ?d)) = card (U - fst ` set d)"
        unfolding eq by (rule card_Suc_Diff1 [OF fin mem])
      with 1 show ?thesis by simp
    qed
  qed
  assume a: "q = at # q'" "sp_getitem g at = Inr x2" "(adj, g') = x2"
    "find_shortest_path_for adj at (dist, q') = Inr x2a" "(dist', q'') = x2a"
  have fin: "finite (graph_nodes g)" by (simp add: graph_nodes_def)
  have ins: "set (dict_setitem d k []) = insert (k, []) (set d)"
    if "map_of d k = None" for d :: "(string \<times> string list) list" and k
    using that
  proof (induction d)
    case Nil
    then show ?case by simp
  next
    case (Cons kv d)
    then show ?case by (cases kv) (simp add: insert_commute split: if_splits)
  qed
  from a have cases: "(map_of (items g) at = Some adj \<and> g' = g)
      \<or> (map_of (items g) at = None \<and> adj = []
           \<and> g' = g\<lparr>items := dict_setitem (items g) at []\<rparr>)"
    by (auto simp: sp_getitem_def split: option.splits if_splits)
  then have nodes: "graph_nodes g' = graph_nodes g"
    by (fastforce simp: graph_nodes_def ins)
  from cases have sub: "set adj \<subseteq> graph_nodes g"
  proof
    assume "map_of (items g) at = Some adj \<and> g' = g"
    then have "(at, adj) \<in> set (items g)" by (simp add: map_of_SomeD)
    then show ?thesis by (force simp: graph_nodes_def)
  next
    assume "map_of (items g) at = None \<and> adj = []
           \<and> g' = g\<lparr>items := dict_setitem (items g) at []\<rparr>"
    then show ?thesis by simp
  qed
  from a for_measure [of adj at dist q' dist' q'' "graph_nodes g", OF _ fin sub]
  show "((g', q'', dist'), g, q, dist)
          \<in> measure (\<lambda>(g, q, dist). 2 * card (graph_nodes g - fst ` set dist) + length q)"
    by (simp add: nodes)
qed

text \<open>
  The names bound at module level when a method runs: the two imports, the four
  classes and, under \<open>__main__\<close>, the test case. \<open>find_shortest_path\<close> reads the
  global name \<open>deque\<close>; a name that is neither bound there nor a builtin raises
  \<open>NameError\<close>. \<open>deque(start)\<close> would hold the characters of the string \<open>start\<close>.
\<close>
definition module_globals :: "string list" where
  "module_globals = [''unittest'', ''defaultdict'', ''Cache_Singleton'', ''Peer'',
                     ''Graph_BFS'', ''Graph_Shortest_Path'', ''TestGraph'']"

definition find_shortest_path ::
  "string \<Rightarrow> string \<Rightarrow> sp_graph \<Rightarrow> (error + pyval option) \<times> sp_graph" where
  "find_shortest_path start end g =
     (let dist = [(start, PList [PStr start])]
      in if ''deque'' \<notin> set module_globals then (Inl (NameError ''deque''), g)
         else (let q = map (\<lambda>c. [c]) start
               in case find_shortest_path_while g q dist of
                    Inl e \<Rightarrow> (Inl e, g)
                  | Inr (dist', g') \<Rightarrow> (Inr (map_of dist' end), g')))"

section \<open>Properties of the registry\<close>

subsection \<open>Facts shared by the proofs\<close>

lemmas peer_eval = connect_def set_online_def set_offline_def Peer_init_def dict_contains_def
  dict_pop_def dict_keys_def isonline_def num_connected_def connected_of_def run_def
  send_msg_def call_connect_def fcard_fempty fcard_finsert_if linked_def scenario1_def

lemma connect_state: "snd (connect a b st) = st"
  by (simp add: connect_def split: option.splits)

lemma dict_setitem_contains: "dict_contains (dict_setitem d k v) k"
  by (induction d) (auto simp: dict_contains_def)

lemma no_edges_setitem: "no_edges d \<Longrightarrow> connected v = {||} \<Longrightarrow> no_edges (dict_setitem d k v)"
  by (induction d) (auto simp: no_edges_def)

lemma no_edges_pop: "no_edges d \<Longrightarrow> no_edges (dict_pop d k)"
  by (induction d) (auto simp: no_edges_def dict_pop_def)

lemma no_edges_lookup: "no_edges d \<Longrightarrow> map_of d k = Some node \<Longrightarrow> connected node = {||}"
  by (induction d) (auto simp: no_edges_def split: if_splits)

lemma no_edges_loop: "no_edges d \<Longrightarrow> no_edges (snd (set_offline_loop i ks d))"
  by (induction ks arbitrary: d)
     (auto simp: no_edges_setitem split: option.splits dest: no_edges_lookup)

lemma no_edges_set_offline: "no_edges (peers st) \<Longrightarrow> no_edges (peers (snd (set_offline i st)))"
  using no_edges_loop [OF no_edges_pop, of "peers st" i "dict_keys (dict_pop (peers st) i)" i]
  by (auto simp: set_offline_def Let_def split: prod.splits)

lemma no_edges_exec: "no_edges (peers st) \<Longrightarrow> no_edges (peers (exec_op op st))"
  by (cases op) (auto simp: set_online_def connect_state no_edges_setitem no_edges_set_offline)

text \<open>No operation ever inserts into a connected set, so a registry that starts
  without edges never has one.\<close>

lemma no_edges_run: "no_edges (peers st) \<Longrightarrow> no_edges (peers (run ops st))"
  unfolding run_def by (induction ops arbitrary: st) (auto simp: no_edges_exec)

lemma N_exec: "N (exec_op op st) = N st"
  by (cases op)
     (auto simp: set_online_def connect_state set_offline_def Let_def split: prod.splits)

lemma N_run: "N (run ops st) = N st"
  unfolding run_def by (induction ops arbitrary: st) (auto simp: N_exec)

lemma no_edges_connected_of: "no_edges (peers st) \<Longrightarrow> connected_of st a = {||}"
  by (auto simp: connected_of_def split: option.splits dest: no_edges_lookup)

lemma isonline_num_connected:
  "isonline st a \<Longrightarrow>
     \<exists>node. map_of (peers st) a = Some node
          \<and> num_connected st a = Inr (int (fcard (connected node)))"
  by (cases "map_of (peers st) a")
     (simp_all add: isonline_def dict_contains_def num_connected_def)

subsection \<open>What each operation does to the connected sets\<close>

text \<open>
  These hold from every registry state, also one with edges in it: an operation that
  returns normally keeps a symmetric state symmetric, and no operation, raising or
  not, adds a member to any connected set.
\<close>

lemma map_of_setitem:
  "map_of (dict_setitem d k v) k' = (if k' = k then Some v else map_of d k')"
  by (induction d) auto

lemma loop_result:
  "set_offline_loop i ks d = (Inr (), d') \<Longrightarrow>
     map_of d' k = (if k \<in> set ks
                    then map_option (\<lambda>node. node\<lparr>connected := connected node |-| {|i|}\<rparr>) (map_of d k)
                    else map_of d k)"
proof (induction ks arbitrary: d)
  case Nil
  then show ?case by simp
next
  case (Cons k' ks)
  from Cons.prems obtain node where node: "map_of d k' = Some node" "i |\<in>| connected node"
    by (auto split: option.splits if_splits)
  let ?d = "dict_setitem d k' (node\<lparr>connected := connected node |-| {|i|}\<rparr>)"
  from Cons.prems node have "set_offline_loop i ks ?d = (Inr (), d')" by simp
  from Cons.IH [OF this] node show ?case
    by (auto simp: map_of_setitem)
qed

lemma map_of_pop: "map_of (dict_pop d i) k = (if k = i then None else map_of d k)"
  by (induction d) (auto simp: dict_pop_def)

lemma keys_map_of: "k \<in> set (dict_keys d) \<longleftrightarrow> map_of d k \<noteq> None"
  by (induction d) (auto simp: dict_keys_def)

lemma set_offline_result:
  assumes "dict_contains (peers st) i" and "set_offline i st = (Inr (), st')"
  shows "connected_of st' k = (if k = i then {||} else connected_of st k |-| {|i|})"
proof -
  let ?d = "dict_pop (peers st) i"
  from assms obtain d' where
    loop: "set_offline_loop i (dict_keys ?d) ?d = (Inr (), d')" and st': "st' = st\<lparr>peers := d'\<rparr>"
    by (auto simp: set_offline_def Let_def split: prod.splits)
  have "map_of d' k
          = map_option (\<lambda>node. node\<lparr>connected := connected node |-| {|i|}\<rparr>) (map_of ?d k)"
    using loop_result [OF loop, of k] by (auto simp: keys_map_of)
  then show ?thesis
    by (auto simp: st' connected_of_def map_of_pop split: option.splits)
qed

lemma connected_of_set_online: "connected_of (set_online i st) k = connected_of st k"
  by (auto simp: set_online_def connected_of_def dict_contains_def map_of_setitem)

lemma symmetric_set_online: "symmetric st \<Longrightarrow> symmetric (set_online i st)"
  by (simp add: symmetric_def connected_of_set_online)

lemma symmetric_connect: "symmetric st \<Longrightarrow> symmetric (snd (connect a b st))"
  by (simp add: connect_state)

lemma symmetric_set_offline:
  assumes "symmetric st" and "set_offline i st = (Inr (), st')"
  shows "symmetric st'"
proof (cases "dict_contains (peers st) i")
  case False
  with assms show ?thesis by (simp add: set_offline_def)
next
  case True
  show ?thesis
    unfolding symmetric_def set_offline_result [OF True assms(2)]
    using assms(1) by (auto simp: symmetric_def)
qed

lemma loop_shrinks:
  "connected_of \<lparr>N = n, peers = snd (set_offline_loop i ks d)\<rparr> k |\<subseteq>| connected_of \<lparr>N = n, peers = d\<rparr> k"
proof (induction ks arbitrary: d)
  case Nil
  then show ?case by simp
next
  case (Cons k' ks)
  show ?case
  proof (cases "map_of d k'")
    case None
    then show ?thesis by simp
  next
    case (Some node)
    show ?thesis
    proof (cases "i |\<in>| connected node")
      case False
      with Some show ?thesis by simp
    next
      case True
      let ?d = "dict_setitem d k' (node\<lparr>connected := connected node |-| {|i|}\<rparr>)"
      have "connected_of \<lparr>N = n, peers = ?d\<rparr> k |\<subseteq>| connected_of \<lparr>N = n, peers = d\<rparr> k"
        using Some by (auto simp: connected_of_def map_of_setitem split: option.splits)
      with Cons.IH [of ?d] Some True show ?thesis by auto
    qed
  qed
qed

lemma exec_op_shrinks: "connected_of (exec_op op st) k |\<subseteq>| connected_of st k"
proof (cases op)
  case (SetOnline i)
  then show ?thesis by (simp add: connected_of_set_online)
next
  case (Connect a b)
  then show ?thesis by (simp add: connect_state)
next
  case (SetOffline i)
  show ?thesis
  proof (cases "dict_contains (peers st) i")
    case False
    with SetOffline show ?thesis by (simp add: set_offline_def)
  next
    case True
    let ?d = "dict_pop (peers st) i"
    have 1: "peers (snd (set_offline i st)) = snd (set_offline_loop i (dict_keys ?d) ?d)"
      using True by (simp add: set_offline_def Let_def split: prod.splits)
    have 2: "connected_of \<lparr>N = N st, peers = ?d\<rparr> k |\<subseteq>| connected_of st k"
      by (auto simp: connected_of_def map_of_pop split: option.splits)
    have 3: "connected_of (snd (set_offline i st)) k
              = connected_of \<lparr>N = N st, peers = snd (set_offline_loop i (dict_keys ?d) ?d)\<rparr> k"
      using 1 by (simp add: connected_of_def)
    from loop_shrinks [of "N st" i "dict_keys ?d" ?d k] 2 3 SetOffline show ?thesis by auto
  qed
qed

lemma degree_never_grows:
  "fcard (connected_of (exec_op op st) k) \<le> fcard (connected_of st k)"
  by (rule fcard_mono) (rule exec_op_shrinks)

subsection \<open>connect on a new pair\<close>

text \<open>
  On every state the claim C1 speaks of (both ids online, distinct, not yet connected,
  both degrees below \<open>N - 1\<close>) \<open>connect\<close> raises \<open>AttributeError\<close> and inserts nothing.
\<close>

lemma connect_fresh_edge:
  assumes "id_from \<noteq> id_to"
    and "map_of (peers st) id_from = Some node_from"
    and "map_of (peers st) id_to = Some node_to"
    and "id_to |\<notin>| connected node_from"
    and "int (fcard (connected node_from)) < N st - 1"
    and "int (fcard (connected node_to)) < N st - 1"
  shows "connect id_from id_to st = (Inl (AttributeError ''append''), st)"
  using assms by (simp add: connect_def)

text \<open>
  C1. The claim: when \<open>idA\<close> and \<open>idB\<close> are online, distinct, not yet connected and both
  of degree below \<open>N - 1\<close>, \<open>connect(idA, idB)\<close> inserts each id into the other's
  connected set and returns success. The code, on the input of its own test
  \<open>test_connect\<close> (a fresh registry, \<open>"123"\<close> and \<open>"321"\<close> set online): the call raises
  \<open>AttributeError\<close>, returns nothing, and both connected sets stay empty.
\<close>

theorem connect_new_pair_raises:
  "connect ''123'' ''321'' (set_online ''321'' (set_online ''123'' (Peer_init None)))
     = (Inl (AttributeError ''append''),
        \<lparr>N = 1024, peers = [(''123'', \<lparr>connected = {||}\<rparr>), (''321'', \<lparr>connected = {||}\<rparr>)]\<rparr>)"
  by (simp add: connect_def set_online_def Peer_init_def dict_contains_def fcard_fempty)

subsection \<open>Symmetry\<close>

text \<open>
  C2. For every sequence of \<open>set_online\<close>, \<open>set_offline\<close> and \<open>connect\<close> calls on a
  newly constructed registry and all ids \<open>a\<close> and \<open>b\<close>: after the sequence (so after each
  of its operations, a prefix being a sequence), \<open>b\<close> is in the connected set of \<open>a\<close>
  if and only if \<open>a\<close> is in the connected set of \<open>b\<close>. It holds after the operations
  that raise as well as after those that succeed.
\<close>

theorem connected_symmetric:
  "b |\<in>| connected_of (run ops (Peer_init arg)) a
     \<longleftrightarrow> a |\<in>| connected_of (run ops (Peer_init arg)) b"
proof -
  have "no_edges (peers (run ops (Peer_init arg)))"
    by (rule no_edges_run) (simp add: Peer_init_def no_edges_def)
  then show ?thesis by (simp add: no_edges_connected_of)
qed

theorem connected_symmetric_witness:
  "(''b'' |\<in>| connected_of
       (run [SetOnline ''a'', SetOnline ''b'', Connect ''a'' ''b'', SetOffline ''a'']
            (Peer_init None)) ''a'')
   = (''a'' |\<in>| connected_of
       (run [SetOnline ''a'', SetOnline ''b'', Connect ''a'' ''b'', SetOffline ''a'']
            (Peer_init None)) ''b'')"
  using connected_symmetric
    [of "''b''" "[SetOnline ''a'', SetOnline ''b'', Connect ''a'' ''b'', SetOffline ''a'']"
        None "''a''"]
  by simp

subsection \<open>Degree bound\<close>

text \<open>
  C3. First half: for a registry constructed with \<open>N \<ge> 1\<close> (the specification has
  \<open>N > 1\<close>), every sequence of operations and every peer \<open>a\<close> online after it,
  \<open>num_connected\<close> returns a degree of at most \<open>N - 1\<close>. Second half, on every
  registry state: when \<open>id_from\<close> and \<open>id_to\<close> are distinct, online and not yet
  connected, and one more edge would take the degree of either above \<open>N - 1\<close>,
  \<open>connect\<close> raises the \<open>'Too many connections'\<close> exception and changes nothing.
\<close>

theorem degree_bound:
  "(1 \<le> N (Peer_init arg) \<longrightarrow> isonline (run ops (Peer_init arg)) a \<longrightarrow>
      (\<exists>n. num_connected (run ops (Peer_init arg)) a = Inr n
          \<and> n \<le> N (run ops (Peer_init arg)) - 1))
   \<and> (id_from \<noteq> id_to \<and> num_connected st id_from = Inr df \<and> num_connected st id_to = Inr dt
        \<and> id_to |\<notin>| connected_of st id_from \<and> (N st - 1 < df + 1 \<or> N st - 1 < dt + 1)
      \<longrightarrow> connect id_from id_to st = (Inl (Exception_too_many (N st)), st))"
proof (intro conjI impI)
  let ?st = "run ops (Peer_init arg)"
  assume n: "1 \<le> N (Peer_init arg)" and on: "isonline ?st a"
  have ne: "no_edges (peers ?st)"
    by (rule no_edges_run) (simp add: Peer_init_def no_edges_def)
  from isonline_num_connected [OF on] obtain node where
    node: "map_of (peers ?st) a = Some node"
    and num: "num_connected ?st a = Inr (int (fcard (connected node)))" by blast
  from no_edges_lookup [OF ne node] have "fcard (connected node) = 0" by simp
  with num n show "\<exists>n. num_connected ?st a = Inr n \<and> n \<le> N ?st - 1"
    by (simp add: N_run)
next
  assume "id_from \<noteq> id_to \<and> num_connected st id_from = Inr df
        \<and> num_connected st id_to = Inr dt
        \<and> id_to |\<notin>| connected_of st id_from \<and> (N st - 1 < df + 1 \<or> N st - 1 < dt + 1)"
  then show "connect id_from id_to st = (Inl (Exception_too_many (N st)), st)"
    by (auto simp: connect_def num_connected_def connected_of_def split: option.splits)
qed

theorem degree_bound_witness:
  "isonline (run [SetOnline ''A'', SetOnline ''B'', SetOnline ''C'', Connect ''A'' ''B'']
                 (Peer_init (Some 2))) ''A''
   \<and> (\<exists>n. num_connected
             (run [SetOnline ''A'', SetOnline ''B'', SetOnline ''C'', Connect ''A'' ''B'']
                  (Peer_init (Some 2))) ''A'' = Inr n \<and> n \<le> 2 - 1)
   \<and> num_connected scenario1 ''A'' = Inr 1 \<and> num_connected scenario1 ''C'' = Inr 0
   \<and> ''C'' |\<notin>| connected_of scenario1 ''A''
   \<and> connect ''A'' ''C'' scenario1 = (Inl (Exception_too_many 2), scenario1)"
  using degree_bound
    [of "Some 2" "[SetOnline ''A'', SetOnline ''B'', SetOnline ''C'', Connect ''A'' ''B'']"
        "''A''" "''A''" "''C''" scenario1 1 0]
  by (simp add: peer_eval)

subsection \<open>set_offline\<close>

text \<open>What does hold of \<open>set_offline\<close>: an unknown id changes nothing, and a known id
  is not online afterwards, whether or not the loop raised.\<close>

lemma set_offline_unknown: "\<not> isonline st i \<Longrightarrow> set_offline i st = (Inr (), st)"
  by (auto simp: set_offline_def isonline_def split: if_splits)

lemma loop_keeps_keys: "map_of (snd (set_offline_loop i ks d)) k = None \<longleftrightarrow> map_of d k = None"
proof (induction ks arbitrary: d)
  case Nil
  then show ?case by simp
next
  case (Cons k' ks)
  have upd: "map_of (dict_setitem d' k' v) k = None \<longleftrightarrow> map_of d' k = None"
    if "map_of d' k' \<noteq> None" for d' :: peers_dict and v
    using that by (induction d') (auto split: if_splits)
  show ?case by (auto simp: Cons.IH upd split: option.splits)
qed

lemma set_offline_not_online: "\<not> isonline (snd (set_offline i st)) i"
proof (cases "dict_contains (peers st) i")
  case False
  then show ?thesis by (simp add: set_offline_def isonline_def)
next
  case True
  let ?d = "dict_pop (peers st) i"
  have "map_of ?d i = None"
    by (auto simp: dict_pop_def map_of_eq_None_iff)
  then have "map_of (snd (set_offline_loop i (dict_keys ?d) ?d)) i = None"
    by (simp add: loop_keeps_keys)
  moreover have "peers (snd (set_offline i st)) = snd (set_offline_loop i (dict_keys ?d) ?d)"
    using True by (simp add: set_offline_def Let_def split: prod.splits)
  ultimately show ?thesis by (simp add: isonline_def dict_contains_def)
qed

text \<open>
  C4. The claim: \<open>setOffline(id)\<close> never fails. The code, on a fresh registry with
  \<open>"a"\<close> and \<open>"b"\<close> set online: \<open>set_offline("a")\<close> pops \<open>"a"\<close>, reaches \<open>"b"\<close>, whose
  connected set does not hold \<open>"a"\<close>, and leaves with the \<open>KeyError\<close> of \<open>set.remove\<close>;
  the handler names \<open>ValueError\<close>.
\<close>

theorem set_offline_raises:
  "set_offline ''a'' (set_online ''b'' (set_online ''a'' (Peer_init None)))
     = (Inl (KeyError ''a''), \<lparr>N = 1024, peers = [(''b'', \<lparr>connected = {||}\<rparr>)]\<rparr>)"
  by (simp add: peer_eval)

subsection \<open>connect with an id that is not online\<close>

text \<open>The return value \<open>False\<close> is the result of this case and of no other: every
  other path returns \<open>True\<close> or raises.\<close>

lemma connect_False_iff:
  "fst (connect id_from id_to st) = Inr False \<longleftrightarrow>
     id_from \<noteq> id_to \<and> (\<not> isonline st id_from \<or> \<not> isonline st id_to)"
  by (auto simp: connect_def isonline_def dict_contains_def split: option.splits)

text \<open>
  C5. For every registry state and distinct ids: if either id is not in the registry,
  \<open>connect\<close> reports the failure to its caller at once, as the return value \<open>False\<close>
  (the result the code reserves for "not online"), and changes nothing.
\<close>

theorem connect_not_online:
  "id_from \<noteq> id_to \<Longrightarrow> \<not> isonline st id_from \<or> \<not> isonline st id_to
     \<Longrightarrow> connect id_from id_to st = (Inr False, st)"
  by (auto simp: connect_def isonline_def dict_contains_def split: option.splits)

theorem connect_not_online_witness:
  "''123'' \<noteq> ''321'' \<and> \<not> isonline (set_online ''123'' (Peer_init None)) ''321''
    \<and> connect ''123'' ''321'' (set_online ''123'' (Peer_init None))
        = (Inr False, set_online ''123'' (Peer_init None))"
  using connect_not_online [of "''123''" "''321''" "set_online ''123'' (Peer_init None)"]
  by (simp add: peer_eval)

subsection \<open>Idempotence\<close>

text \<open>
  C6. For every registry state, \<open>set_online(i)\<close> twice in a row leaves the state one
  call leaves. For every state in which \<open>connect(a, b)\<close> returns \<open>True\<close>, the same call
  made again on the state the first left returns \<open>True\<close> and leaves that state as it is,
  which is the state before the first call.
\<close>

theorem idempotence:
  "set_online i (set_online i st) = set_online i st
   \<and> (fst (connect a b st') = Inr True \<longrightarrow>
        connect a b (snd (connect a b st')) = (Inr True, snd (connect a b st'))
        \<and> snd (connect a b st') = st')"
proof (intro conjI impI)
  show "set_online i (set_online i st) = set_online i st"
    by (simp add: set_online_def dict_setitem_contains)
next
  assume h: "fst (connect a b st') = Inr True"
  have s: "snd (connect a b st') = st'" by (rule connect_state)
  from h s have "connect a b st' = (Inr True, st')" by (metis prod.collapse)
  with s show "connect a b (snd (connect a b st')) = (Inr True, snd (connect a b st'))" by simp
  show "snd (connect a b st') = st'" by (rule s)
qed

theorem idempotence_witness:
  "fst (connect ''a'' ''b'' linked) = Inr True
   \<and> connect ''a'' ''b'' (snd (connect ''a'' ''b'' linked))
       = (Inr True, snd (connect ''a'' ''b'' linked))
   \<and> snd (connect ''a'' ''b'' linked) = linked
   \<and> set_online ''a'' (set_online ''a'' (Peer_init None)) = set_online ''a'' (Peer_init None)"
  using idempotence [of "''a''" "Peer_init None" "''a''" "''b''" linked]
  by (simp add: connect_def linked_def)

subsection \<open>send_msg\<close>

text \<open>For distinct ids \<open>send_msg\<close> raises the \<open>TypeError\<close> of its three-argument call
  of \<open>connect\<close>, on every state, and prints nothing.\<close>

lemma send_msg_distinct:
  "id_from \<noteq> id_to \<Longrightarrow>
     send_msg id_from id_to msg (st, out) = (Inl (TypeError ''connect''), st, out)"
  by (simp add: send_msg_def call_connect_def)

text \<open>
  C9. The claim: with \<open>idFrom\<close> and \<open>idTo\<close> distinct and already connected,
  \<open>sendMessage\<close> succeeds and hands the message over; when they are not connected it
  tries \<open>connect\<close> first. The code: on the state \<open>linked\<close>, where \<open>"a"\<close> and \<open>"b"\<close> are
  connected, and on a fresh registry with both set online, \<open>send_msg\<close> raises
  \<open>TypeError\<close> and nothing is printed; the body of \<open>connect\<close> never runs.
\<close>

theorem send_msg_raises:
  "send_msg ''a'' ''b'' ''hi'' (linked, []) = (Inl (TypeError ''connect''), linked, [])
   \<and> send_msg ''a'' ''b'' ''hi'' (set_online ''b'' (set_online ''a'' (Peer_init None)), [])
       = (Inl (TypeError ''connect''), set_online ''b'' (set_online ''a'' (Peer_init None)), [])"
  by (simp add: send_msg_def call_connect_def)

subsection \<open>Constructing the registry again\<close>

text \<open>
  C10. If a construction \<open>Peer(arg1)\<close> returned the object at address \<open>a\<close>, then in
  every later world \<open>w2\<close> whose class attribute is still the one that construction left
  (the registry operations change the object, not the class), \<open>Peer(arg2)\<close> returns
  the same address \<open>a\<close>, and the object there has an empty peer mapping and \<open>N\<close> equal to
  the new argument (1024 when there is none): every peer and connection is gone.
\<close>

theorem Peer_constructed_again:
  "fst (Peer_call arg1 w) = Inr a
   \<Longrightarrow> Peer_instance w2 = Peer_instance (snd (Peer_call arg1 w))
   \<Longrightarrow> fst (Peer_call arg2 w2) = Inr a
       \<and> heap (snd (Peer_call arg2 w2)) a
           = Some \<lparr>N = (case arg2 of None \<Rightarrow> 1024 | Some n \<Rightarrow> n), peers = []\<rparr>"
  by (auto simp: Peer_call_def Cache_Singleton_new_def Peer_init_def
           split: option.splits prod.splits sum.splits)

theorem Peer_constructed_again_witness:
  "fst (Peer_call None \<lparr>Peer_instance = None, heap = Map.empty, next_addr = 0\<rparr>) = Inr 0
   \<and> Peer_instance \<lparr>Peer_instance = Some 0, heap = [0 \<mapsto> linked], next_addr = 1\<rparr>
       = Peer_instance (snd (Peer_call None \<lparr>Peer_instance = None, heap = Map.empty, next_addr = 0\<rparr>))
   \<and> fst (Peer_call (Some 5) \<lparr>Peer_instance = Some 0, heap = [0 \<mapsto> linked], next_addr = 1\<rparr>)
       = Inr 0
   \<and> heap (snd (Peer_call (Some 5)
                  \<lparr>Peer_instance = Some 0, heap = [0 \<mapsto> linked], next_addr = 1\<rparr>)) 0
       = Some \<lparr>N = 5, peers = []\<rparr>"
  using Peer_constructed_again
    [of None "\<lparr>Peer_instance = None, heap = Map.empty, next_addr = 0\<rparr>" 0
        "\<lparr>Peer_instance = Some 0, heap = [0 \<mapsto> linked], next_addr = 1\<rparr>" "Some 5"]
  by (simp add: Peer_call_def Cache_Singleton_new_def)

section \<open>Properties of the breadth-first traversal\<close>

subsection \<open>The inner loop and the queue loop on in-range nodes\<close>











subsection \<open>The traversal\<close>



text \<open>The keys of a graph with \<open>dense_ids\<close> are exactly \<open>0 .. n - 1\<close>.\<close>

lemma dense_ids_keys:
  assumes "dense_ids g"
  shows "set (dict_keys g) = {0 ..< int (length g)}"
proof (rule card_subset_eq)
  show "finite {0 ..< int (length g)}" by simp
  show "set (dict_keys g) \<subseteq> {0 ..< int (length g)}"
    using assms by (auto simp: dense_ids_def list_all_iff in_range_def)
  have "card (set (dict_keys g)) = length (dict_keys g)"
    using assms by (simp add: dense_ids_def distinct_card)
  then show "card (set (dict_keys g)) = card {0 ..< int (length g)}"
    by (simp add: dict_keys_def)
qed


text \<open>
  Outside those graphs. The table is \<open>[False] * len(self.graph)\<close> under the comment
  \<open>Mark all the vertices as not visited\<close>, but \<open>len\<close> of the dict counts the keys, and a
  node without an outgoing edge is no key. On the single edge \<open>0 \<rightarrow> 1\<close>, whose nodes are
  0 and 1, the table has one entry: \<open>BFS(0)\<close> prints 0 and raises \<open>IndexError\<close> at
  \<open>visited[1]\<close>.
\<close>

lemma BFS_sink_raises:
  "BFS 0 (addEdge 0 1 []) = (Inl IndexError, [0], [(0, [1])])"
  by (simp add: BFS_def addEdge_def defaultdict_getitem_def list_index_def)



section \<open>Properties of find_shortest_path\<close>

text \<open>The method never gets past its second statement, whatever the graph and the
  two nodes.\<close>

lemma find_shortest_path_NameError:
  "find_shortest_path start end g = (Inl (NameError ''deque''), g)"
  by (simp add: find_shortest_path_def module_globals_def)

text \<open>
  The loop itself, started as line 187 would start it had the name been bound, on the
  fixed graph with \<open>start = 'A'\<close>: the entry it leaves for \<open>'D'\<close> is the nested list
  \<open>[[['A'], 'B'], 'D']\<close>, of length 2, not the path \<open>['A', 'B', 'D']\<close>.
\<close>

lemma find_shortest_path_while_nested:
  "\<exists>dist. find_shortest_path_while (Graph_Shortest_Path_init False) (map (\<lambda>c. [c]) ''A'')
            [(''A'', PList [PStr ''A''])]
          = Inr (dist, Graph_Shortest_Path_init False)
        \<and> map_of dist ''D''
          = Some (PList [PList [PList [PStr ''A''], PStr ''B''], PStr ''D''])"
  by (simp add: Graph_Shortest_Path_init_def sp_getitem_def dict_contains_def)

text \<open>
  C7. The claim: \<open>shortestPath(graph, start, end)\<close> returns a path with both endpoints
  and the minimum number of edges, none when \<open>end\<close> is unreachable, \<open>[start]\<close> when the
  two are equal. The code, on the call its own comment documents
  (\<open>find_shortest_path(graph, 'A', 'D') # ['A', 'B', 'D']\<close>, fixed graph): it raises
  \<open>NameError\<close>, since \<open>deque\<close> is never imported, and returns nothing.
\<close>

theorem find_shortest_path_raises:
  "find_shortest_path ''A'' ''D'' (Graph_Shortest_Path_init False)
     = (Inl (NameError ''deque''), Graph_Shortest_Path_init False)"
  by (simp add: find_shortest_path_def module_globals_def)

end
